theory Spec2Isabelle
  imports Main
begin

section \<open>JavaScript values and strings\<close>

text \<open>
  The validators of the registry (\<^verbatim>\<open>scripts/utils\<close>, \<^verbatim>\<open>scripts/validators\<close>) are
  JavaScript functions over strings and over the trees that \<^verbatim>\<open>JSON.parse\<close> builds.

  A JavaScript string is a sequence of UTF-16 code units; the model uses HOL's
  \<open>string\<close>, whose characters are the code units \<open>0x00\<close> to \<open>0xFF\<close>. On that range
  \<open>length\<close> is JavaScript's \<^verbatim>\<open>.length\<close>; code units above \<open>0xFF\<close> are not modelled.

  A JavaScript value is one of the constructors below. The validators never compute
  with a number: they observe that it is a number, whether it is truthy, and (in one
  message) the text \<^verbatim>\<open>ToString\<close> prints for it. \<open>Num\<close> therefore carries that
  text, which determines the other two: the falsy numbers are \<^verbatim>\<open>0\<close>, \<^verbatim>\<open>-0\<close> (both
  print as \<^verbatim>\<open>0\<close>) and \<^verbatim>\<open>NaN\<close>. \<open>Other\<close> stands for every remaining object
  (functions, the built-in prototypes). An object is the list of its own properties in
  insertion order.
\<close>

datatype jsval =
    Undefined
  | Null
  | Bool bool
  | Num string
  | Str string
  | Arr "jsval list"
  | Obj "(string \<times> jsval) list"
  | Other


fun isObject :: "jsval \<Rightarrow> bool" where
  "isObject (Arr xs) = True"
| "isObject (Obj ps) = True"
| "isObject v = False"

fun isArray :: "jsval \<Rightarrow> bool" where
  "isArray (Arr xs) = True"
| "isArray v = False"


text \<open>The members every plain object inherits from \<^verbatim>\<open>Object.prototype\<close>.\<close>

definition objectPrototypeKeys :: "string list" where
  "objectPrototypeKeys =
     [''constructor'', ''__defineGetter__'', ''__defineSetter__'', ''hasOwnProperty'',
      ''__lookupGetter__'', ''__lookupSetter__'', ''isPrototypeOf'', ''propertyIsEnumerable'',
      ''toString'', ''valueOf'', ''__proto__'', ''toLocaleString'']"

text \<open>
  The property read \<^verbatim>\<open>v[k]\<close> (and \<^verbatim>\<open>v.k\<close>) on a value that is an object: an own
  property, else the inherited member, else \<^verbatim>\<open>undefined\<close>. For an array the model
  covers the keys the validators read (\<^verbatim>\<open>type\<close>, \<^verbatim>\<open>name\<close>, \<^verbatim>\<open>inputs\<close>, ...), none of
  which is an index, \<^verbatim>\<open>length\<close> or a member of \<^verbatim>\<open>Array.prototype\<close>.
\<close>

fun jsGet :: "jsval \<Rightarrow> string \<Rightarrow> jsval" where
  "jsGet (Obj ps) k =
     (case map_of ps k of
        Some v \<Rightarrow> v
      | None \<Rightarrow> if k \<in> set objectPrototypeKeys then Other else Undefined)"
| "jsGet v k = Undefined"

subsection \<open>String operations\<close>

text \<open>\<^verbatim>\<open>s.startsWith(p)\<close> and \<^verbatim>\<open>s.includes(p)\<close>.\<close>

definition startsWith :: "string \<Rightarrow> string \<Rightarrow> bool" where
  "startsWith s p = (take (length p) s = p)"

fun includes_str :: "string \<Rightarrow> string \<Rightarrow> bool" where
  "includes_str [] p = (p = [])"
| "includes_str (c # cs) p = (startsWith (c # cs) p \<or> includes_str cs p)"

text \<open>\<^verbatim>\<open>s.toLowerCase()\<close> on the code units below \<open>0x100\<close>: the letters A to Z and
  the capital letters of Latin-1 (\<open>0xC0\<close> to \<open>0xDE\<close> without the sign \<open>0xD7\<close>).\<close>

definition toLowerChar :: "char \<Rightarrow> char" where
  "toLowerChar c =
     (case map_of (zip ''ABCDEFGHIJKLMNOPQRSTUVWXYZ'' ''abcdefghijklmnopqrstuvwxyz'') c of
        Some l \<Rightarrow> l
      | None \<Rightarrow>
          (let n = (of_char c :: nat)
           in if 192 \<le> n \<and> n \<le> 222 \<and> n \<noteq> 215 then char_of (n + 32) else c))"

definition toLowerCase :: "string \<Rightarrow> string" where
  "toLowerCase s = map toLowerChar s"

text \<open>The decimal rendering of a non-negative integer, as a template literal prints an
  array index or a length.\<close>

definition digitChar :: "nat \<Rightarrow> char" where
  "digitChar d = ''0123456789'' ! d"

fun decimal :: "nat \<Rightarrow> string" where
  "decimal n = (if n < 10 then [digitChar n] else decimal (n div 10) @ [digitChar (n mod 10)])"

declare decimal.simps [simp del]

text \<open>\<^verbatim>\<open>parts.join(sep)\<close> on an array of strings.\<close>

fun joinWith :: "string \<Rightarrow> string list \<Rightarrow> string" where
  "joinWith sep [] = []"
| "joinWith sep [x] = x"
| "joinWith sep (x # y # ys) = x @ sep @ joinWith sep (y # ys)"

subsection \<open>Character classes\<close>

text \<open>The classes of the regular expressions in \<^verbatim>\<open>constants.js\<close> and the validators.
  \<open>isSpace\<close> is \<^verbatim>\<open>\s\<close> on the modelled code units: tab, line feed, vertical tab, form
  feed, carriage return, space and the no-break space \<open>0xA0\<close>.\<close>

definition isSpace :: "char \<Rightarrow> bool" where
  "isSpace c = (let n = (of_char c :: nat) in (9 \<le> n \<and> n \<le> 13) \<or> n = 32 \<or> n = 160)"

definition isNewline :: "char \<Rightarrow> bool" where
  "isNewline c = (c = CHR 0x0A \<or> c = CHR 0x0D)"

definition isControl :: "char \<Rightarrow> bool" where
  "isControl c = (let n = (of_char c :: nat) in n \<le> 31 \<or> n = 127)"

definition isDigit :: "char \<Rightarrow> bool" where
  "isDigit c = (c \<in> set ''0123456789'')"




definition isHex :: "char \<Rightarrow> bool" where
  "isHex c = (c \<in> set ''abcdefABCDEF0123456789'')"

subsection \<open>Regular expressions\<close>

text \<open>
  A regular expression is modelled by the backtracking matcher it denotes, written in
  continuation-passing style: a matcher takes the continuation for the rest of the
  pattern and the input still to read, and returns the first result the continuation
  gives, trying the alternatives in JavaScript's order (greedy quantifiers take the
  longest repetition first). \<open>None\<close> is "no match from here".
\<close>

type_synonym 'r cont = "string \<Rightarrow> 'r option"

type_synonym 'r matcher = "'r cont \<Rightarrow> 'r cont"

text \<open>A literal string; one character of a class; \<^verbatim>\<open>[c]*\<close>, \<^verbatim>\<open>[c]+\<close> and \<^verbatim>\<open>[c]{n}\<close> on a
  class; alternation; the end of input \<^verbatim>\<open>$\<close>.\<close>

definition reLit :: "string \<Rightarrow> 'r matcher" where
  "reLit p k s = (if startsWith s p then k (drop (length p) s) else None)"

definition reOne :: "(char \<Rightarrow> bool) \<Rightarrow> 'r matcher" where
  "reOne P k s = (case s of [] \<Rightarrow> None | c # cs \<Rightarrow> if P c then k cs else None)"

fun reStar :: "(char \<Rightarrow> bool) \<Rightarrow> 'r matcher" where
  "reStar P k [] = k []"
| "reStar P k (c # cs) =
     (if P c then (case reStar P k cs of Some r \<Rightarrow> Some r | None \<Rightarrow> k (c # cs))
      else k (c # cs))"

definition rePlus :: "(char \<Rightarrow> bool) \<Rightarrow> 'r matcher" where
  "rePlus P k s = (case s of [] \<Rightarrow> None | c # cs \<Rightarrow> if P c then reStar P k cs else None)"

definition reTimes :: "nat \<Rightarrow> (char \<Rightarrow> bool) \<Rightarrow> 'r matcher" where
  "reTimes n P k s =
     (if n \<le> length s \<and> list_all P (take n s) then k (drop n s) else None)"

definition reAlt :: "'r matcher \<Rightarrow> 'r matcher \<Rightarrow> 'r matcher" where
  "reAlt m1 m2 k s = (case m1 k s of Some r \<Rightarrow> Some r | None \<Rightarrow> m2 k s)"

definition reEnd :: "'r matcher" where
  "reEnd k s = (if s = [] then k s else None)"


text \<open>An unanchored pattern is tried at every position, leftmost first.\<close>

fun reSearch :: "'r cont \<Rightarrow> 'r cont" where
  "reSearch m [] = m []"
| "reSearch m (c # cs) = (case m (c # cs) of Some r \<Rightarrow> Some r | None \<Rightarrow> reSearch m cs)"

definition reAccept :: "unit cont" where
  "reAccept s = Some ()"

text \<open>\<^verbatim>\<open>re.test(s)\<close> for a pattern that starts with \<^verbatim>\<open>^\<close> and for one that does not.\<close>

definition reTestAnchored :: "unit cont \<Rightarrow> string \<Rightarrow> bool" where
  "reTestAnchored m s = (m s \<noteq> None)"

definition reTest :: "unit cont \<Rightarrow> string \<Rightarrow> bool" where
  "reTest m s = (reSearch m s \<noteq> None)"

section \<open>Validation results\<close>

text \<open>
  Every validator returns an object literal with the field \<^verbatim>\<open>valid\<close> and some of
  \<^verbatim>\<open>error\<close>, \<^verbatim>\<open>errors\<close>, \<^verbatim>\<open>warnings\<close>, \<^verbatim>\<open>checksummed\<close>, \<^verbatim>\<open>path\<close>. A field
  the literal does not mention is \<open>None\<close>.
\<close>

record result =
  valid :: bool
  error :: "string option"
  errors :: "string list option"
  warnings :: "string list option"
  checksummed :: "string option"
  path :: "string option"

text \<open>\<^verbatim>\<open>{ valid: true }\<close> and \<^verbatim>\<open>{ valid: false, error: msg }\<close>.\<close>

definition passed :: result where
  "passed = \<lparr>valid = True, error = None, errors = None, warnings = None,
              checksummed = None, path = None\<rparr>"

definition failed :: "string \<Rightarrow> result" where
  "failed msg = \<lparr>valid = False, error = Some msg, errors = None, warnings = None,
                  checksummed = None, path = None\<rparr>"

section \<open>Safe JSON parsing (\<^verbatim>\<open>scripts/utils/safe-json.js\<close>)\<close>

text \<open>
  \<^verbatim>\<open>safeParse(text)\<close> calls \<^verbatim>\<open>JSON.parse(text, reviver)\<close> and then deletes three own
  properties of the result. The grammar of JSON is the language's: the model takes the
  built-in parser without reviver as the parameter \<open>jsonParse\<close> (\<open>None\<close> is the
  \<^verbatim>\<open>SyntaxError\<close>) and gives the part of \<^verbatim>\<open>JSON.parse\<close> that runs the reviver,
  the standard's \<^verbatim>\<open>InternalizeJSONProperty\<close>: the children of an array or object
  are revived first, in order, under their index or key; a property revived to
  \<^verbatim>\<open>undefined\<close> is deleted from its object (in an array the slot then reads
  \<^verbatim>\<open>undefined\<close>); finally the reviver is called on the holder's key.
\<close>

definition reviver :: "string \<Rightarrow> jsval \<Rightarrow> jsval" where
  "reviver key v =
     (if key = ''__proto__'' \<or> key = ''constructor'' \<or> key = ''prototype''
      then Undefined else v)"

fun internalize :: "(string \<Rightarrow> jsval \<Rightarrow> jsval) \<Rightarrow> string \<Rightarrow> jsval \<Rightarrow> jsval"
and internalizeElements :: "(string \<Rightarrow> jsval \<Rightarrow> jsval) \<Rightarrow> nat \<Rightarrow> jsval list \<Rightarrow> jsval list"
and internalizeProperties ::
      "(string \<Rightarrow> jsval \<Rightarrow> jsval) \<Rightarrow> (string \<times> jsval) list \<Rightarrow> (string \<times> jsval) list"
where
  "internalize r name (Arr xs) = r name (Arr (internalizeElements r 0 xs))"
| "internalize r name (Obj ps) = r name (Obj (internalizeProperties r ps))"
| "internalize r name v = r name v"
| "internalizeElements r i [] = []"
| "internalizeElements r i (x # xs) =
     internalize r (decimal i) x # internalizeElements r (Suc i) xs"
| "internalizeProperties r [] = []"
| "internalizeProperties r ((p, v) # ps) =
     (let v' = internalize r p v
      in if v' = Undefined then internalizeProperties r ps
         else (p, v') # internalizeProperties r ps)"

text \<open>\<^verbatim>\<open>delete obj.key\<close> removes an own property; an array has no own property of
  the three names deleted below.\<close>

fun deleteProperty :: "string \<Rightarrow> jsval \<Rightarrow> jsval" where
  "deleteProperty key (Obj ps) = Obj (filter (\<lambda>kv. fst kv \<noteq> key) ps)"
| "deleteProperty key v = v"

datatype syntaxError = SyntaxError

definition safeParse :: "(string \<Rightarrow> jsval option) \<Rightarrow> string \<Rightarrow> syntaxError + jsval" where
  "safeParse jsonParse text =
     (case jsonParse text of
        None \<Rightarrow> Inl SyntaxError
      | Some tree \<Rightarrow>
          (let obj = internalize reviver [] tree
           in if isObject obj
              then Inr (deleteProperty ''prototype''
                         (deleteProperty ''constructor'' (deleteProperty ''__proto__'' obj)))
              else Inr obj))"

text \<open>The keys a tree may not contain, and the trees that contain none of them at any
  depth.\<close>

definition dangerousKeys :: "string list" where
  "dangerousKeys = [''__proto__'', ''constructor'', ''prototype'']"

fun keyFree :: "jsval \<Rightarrow> bool"
and keyFreeElements :: "jsval list \<Rightarrow> bool"
and keyFreeProperties :: "(string \<times> jsval) list \<Rightarrow> bool"
where
  "keyFree (Arr xs) = keyFreeElements xs"
| "keyFree (Obj ps) = keyFreeProperties ps"
| "keyFree v = True"
| "keyFreeElements [] = True"
| "keyFreeElements (x # xs) = (keyFree x \<and> keyFreeElements xs)"
| "keyFreeProperties [] = True"
| "keyFreeProperties ((k, v) # ps) =
     (k \<notin> set dangerousKeys \<and> keyFree v \<and> keyFreeProperties ps)"

text \<open>The payload of the pollution tests and the tree \<^verbatim>\<open>JSON.parse\<close> builds for it.\<close>

definition pollutionPayload :: string where
  \<open>pollutionPayload = ''{"__proto__":{"polluted":true}}''\<close>

definition pollutionTree :: jsval where
  "pollutionTree = Obj [(''__proto__'', Obj [(''polluted'', Bool True)])]"

definition exampleJsonParse :: "string \<Rightarrow> jsval option" where
  "exampleJsonParse text = (if text = pollutionPayload then Some pollutionTree else None)"

section \<open>Built-ins of the platform\<close>

text \<open>
  Three services the validators call are not part of the repository: the \<^verbatim>\<open>URL\<close>
  constructor, Node's \<^verbatim>\<open>path\<close> module and \<^verbatim>\<open>getAddress\<close> of the \<^verbatim>\<open>ethers\<close>
  library. The validators take them as parameters, so every general theorem holds
  for any implementation; a call that throws returns \<open>Inl\<close> with the message.
  The validators catch what these three throw.
\<close>

record jsURL =
  protocol :: string
  hostname :: string
  port :: string

type_synonym urlConstructor = "string \<Rightarrow> string + jsURL"

record pathModule =
  pathJoin :: "string list \<Rightarrow> string"
  pathResolve :: "string \<Rightarrow> string"
  pathSep :: string

type_synonym addressLibrary = "string \<Rightarrow> string + string"

text \<open>
  Two operations of the language throw where no validator catches: the conversion of a
  value to a string in a template literal (\<^verbatim>\<open>ToString\<close>), which throws a
  \<^verbatim>\<open>TypeError\<close> for an object that has no primitive value, and \<^verbatim>\<open>new RegExp\<close>, which
  throws a \<^verbatim>\<open>SyntaxError\<close> for a source text that is no regular expression. A
  function that can throw returns \<open>Inl\<close> of the fault, and its caller hands the fault
  on. Both operations are parameters as well: \<^verbatim>\<open>ToString\<close> from a value to its text,
  \<^verbatim>\<open>new RegExp\<close> from a source text to the \<^verbatim>\<open>test\<close> of the expression built.
\<close>

datatype fault = TypeError | RegExpSyntaxError

type_synonym stringConversion = "jsval \<Rightarrow> fault + string"


subsection \<open>Node's \<^verbatim>\<open>path\<close> on POSIX\<close>

text \<open>
  For the concrete paths of the claims the model instantiates \<open>pathModule\<close> with the
  POSIX functions of Node (\<^verbatim>\<open>lib/path.js\<close>), relative to a working directory \<open>cwd\<close>.
  \<^verbatim>\<open>normalizeString\<close> walks the segments between slashes: an empty segment and
  \<^verbatim>\<open>.\<close> are dropped, \<^verbatim>\<open>..\<close> removes the last kept segment unless there is none or
  it is \<^verbatim>\<open>..\<close> itself, in which case \<^verbatim>\<open>..\<close> is kept only if the path may rise
  above its root. The kept segments are held last first.
\<close>

fun splitOn :: "char \<Rightarrow> string \<Rightarrow> string list" where
  "splitOn d [] = [[]]"
| "splitOn d (c # cs) =
     (if c = d then [] # splitOn d cs
      else (case splitOn d cs of [] \<Rightarrow> [[c]] | seg # segs \<Rightarrow> (c # seg) # segs))"

fun normalizeSegments :: "bool \<Rightarrow> string list \<Rightarrow> string list \<Rightarrow> string list" where
  "normalizeSegments allowAboveRoot kept [] = kept"
| "normalizeSegments allowAboveRoot kept (seg # segs) =
     (if seg = [] \<or> seg = ''.'' then normalizeSegments allowAboveRoot kept segs
      else if seg = ''..'' then
        (case kept of
           [] \<Rightarrow> normalizeSegments allowAboveRoot (if allowAboveRoot then [''..''] else []) segs
         | lastKept # below \<Rightarrow>
             if lastKept = ''..''
             then normalizeSegments allowAboveRoot
                    (if allowAboveRoot then ''..'' # kept else kept) segs
             else normalizeSegments allowAboveRoot below segs)
      else normalizeSegments allowAboveRoot (seg # kept) segs)"

definition normalizeString :: "string \<Rightarrow> bool \<Rightarrow> string" where
  "normalizeString p allowAboveRoot =
     joinWith ''/'' (rev (normalizeSegments allowAboveRoot [] (splitOn CHR ''/'' p)))"

definition posixNormalize :: "string \<Rightarrow> string" where
  "posixNormalize p =
     (if p = [] then ''.''
      else
        (let isAbsolute = (hd p = CHR ''/'');
             trailingSeparator = (last p = CHR ''/'');
             q = normalizeString p (\<not> isAbsolute)
         in if q = [] then (if isAbsolute then ''/'' else if trailingSeparator then ''./'' else ''.'')
            else (if isAbsolute then ''/'' else []) @ q @ (if trailingSeparator then ''/'' else [])))"

definition posixJoin :: "string list \<Rightarrow> string" where
  "posixJoin args =
     (let joined = joinWith ''/'' (filter (\<lambda>a. a \<noteq> []) args)
      in if joined = [] then ''.'' else posixNormalize joined)"

definition posixResolve :: "string \<Rightarrow> string \<Rightarrow> string" where
  "posixResolve cwd p =
     (let resolvedPath =
            (if p = [] then cwd @ ''/''
             else if hd p = CHR ''/'' then p @ ''/''
             else cwd @ ''/'' @ p @ ''/'')
      in ''/'' @ normalizeString resolvedPath False)"

definition posixPath :: "string \<Rightarrow> pathModule" where
  "posixPath cwd = \<lparr>pathJoin = posixJoin, pathResolve = posixResolve cwd, pathSep = ''/''\<rparr>"

text \<open>The segments \<^verbatim>\<open>normalizeString\<close> keeps are never empty and never \<^verbatim>\<open>.\<close>.\<close>

definition properSegments :: "string list \<Rightarrow> bool" where
  "properSegments kept \<longleftrightarrow> (\<forall>k \<in> set kept. k \<noteq> [] \<and> k \<noteq> ''.'')"


subsection \<open>Values of the other built-ins on the inputs of the claims\<close>

text \<open>What \<^verbatim>\<open>new URL\<close> gives for three URLs; every other input is left as a failure.\<close>

definition exampleURL :: urlConstructor where
  "exampleURL u =
     (if u = ''https://example.com/''
        then Inr \<lparr>protocol = ''https:'', hostname = ''example.com'', port = []\<rparr>
      else if u = ''https://example.com:8080/''
        then Inr \<lparr>protocol = ''https:'', hostname = ''example.com'', port = ''8080''\<rparr>
      else if u = ''https://localhost:8080/''
        then Inr \<lparr>protocol = ''https:'', hostname = ''localhost'', port = ''8080''\<rparr>
      else Inl ''Invalid URL'')"

text \<open>
  What \<^verbatim>\<open>getAddress\<close> gives for the addresses of the unit tests: the checksummed
  address of the token registry and its lower-case spelling, the zero address, and
  the mixed-case address with a wrong checksum, on which the library throws (the test
  "should reject invalid checksum" notes that \<^verbatim>\<open>ethers\<close> fails during \<^verbatim>\<open>getAddress\<close>).
\<close>

definition zeroAddress :: string where
  "zeroAddress = ''0x0000000000000000000000000000000000000000''"

definition exampleGetAddress :: addressLibrary where
  "exampleGetAddress a =
     (if a = ''0x00c1E515EA9579856304198EFb15f525A0bb50f6''
        then Inr ''0x00c1E515EA9579856304198EFb15f525A0bb50f6''
      else if a = ''0x00c1e515ea9579856304198efb15f525a0bb50f6''
        then Inr ''0x00c1E515EA9579856304198EFb15f525A0bb50f6''
      else if a = zeroAddress then Inr zeroAddress
      else if a = ''0x5aAeb6053f3E94C9b9A09f33669435E7Ef1BeAed''
        then Inl ''bad address checksum''
      else Inl ''invalid address'')"


section \<open>Configuration constants (\<^verbatim>\<open>scripts/utils/constants.js\<close>)\<close>


definition ADDRESS_LENGTH :: nat where
  "ADDRESS_LENGTH = 42"

text \<open>\<^verbatim>\<open>/^0x[a-fA-F0-9]{40}$/\<close>\<close>

definition ADDRESS_PATTERN :: "unit cont" where
  "ADDRESS_PATTERN = reLit ''0x'' (reTimes 40 isHex (reEnd reAccept))"

definition MAX_URL_LENGTH :: nat where
  "MAX_URL_LENGTH = 500"

text \<open>\<^verbatim>\<open>/^https:\/\/[^\s]+$/\<close>\<close>

definition URL_HTTPS_PATTERN :: "unit cont" where
  "URL_HTTPS_PATTERN = reLit ''https://'' (rePlus (\<lambda>c. \<not> isSpace c) (reEnd reAccept))"

definition BLOCKED_HOSTS :: "string list" where
  "BLOCKED_HOSTS =
     [''localhost'', ''127.0.0.1'', ''0.0.0.0'', ''::1'', ''169.254.169.254'',
      ''metadata.google.internal'', ''metadata'', ''169.254.169.253'']"

text \<open>The ten patterns, all anchored at the start:
  \<^verbatim>\<open>/^10\./\<close>, \<^verbatim>\<open>/^172\.(1[6-9]|2[0-9]|3[0-1])\./\<close>, \<^verbatim>\<open>/^192\.168\./\<close>, \<^verbatim>\<open>/^127\./\<close>,
  \<^verbatim>\<open>/^0\./\<close>, \<^verbatim>\<open>/^169\.254\./\<close>, \<^verbatim>\<open>/^::1$/\<close>, \<^verbatim>\<open>/^fe80:/\<close>, \<^verbatim>\<open>/^fc00:/\<close>, \<^verbatim>\<open>/^fd00:/\<close>.\<close>

definition BLOCKED_IP_PATTERNS :: "unit cont list" where
  "BLOCKED_IP_PATTERNS =
     [reLit ''10.'' reAccept,
      reLit ''172.''
        (reAlt (\<lambda>k. reLit ''1'' (reOne (\<lambda>c. c \<in> set ''6789'') k))
          (reAlt (\<lambda>k. reLit ''2'' (reOne isDigit k))
                 (\<lambda>k. reLit ''3'' (reOne (\<lambda>c. c \<in> set ''01'') k)))
          (reLit ''.'' reAccept)),
      reLit ''192.168.'' reAccept,
      reLit ''127.'' reAccept,
      reLit ''0.'' reAccept,
      reLit ''169.254.'' reAccept,
      reLit ''::1'' (reEnd reAccept),
      reLit ''fe80:'' reAccept,
      reLit ''fc00:'' reAccept,
      reLit ''fd00:'' reAccept]"






section \<open>Rendering values in messages\<close>

text \<open>
  \<open>jsToString\<close> is \<^verbatim>\<open>ToString\<close> on the values that \<^verbatim>\<open>JSON.parse\<close> builds. An array
  joins its elements with commas, \<^verbatim>\<open>null\<close> and \<^verbatim>\<open>undefined\<close> elements printing as
  nothing. An object without an own property \<^verbatim>\<open>toString\<close> inherits the one of
  \<^verbatim>\<open>Object.prototype\<close> and prints as \<^verbatim>\<open>[object Object]\<close>. An object with an own property
  \<^verbatim>\<open>toString\<close> holds there a value of JSON, which cannot be called; its \<^verbatim>\<open>valueOf\<close>,
  own or inherited, gives no primitive value either, and the conversion throws a
  \<^verbatim>\<open>TypeError\<close> (so for the tree of \<^verbatim>\<open>{"toString":1}\<close>). \<open>Other\<close>, which
  \<^verbatim>\<open>JSON.parse\<close> never builds, is printed as the prototype object is.
\<close>

fun jsToString :: stringConversion
and jsJoinElements :: "jsval list \<Rightarrow> fault + string"
where
  "jsToString Undefined = Inr ''undefined''"
| "jsToString Null = Inr ''null''"
| "jsToString (Bool b) = Inr (if b then ''true'' else ''false'')"
| "jsToString (Num n) = Inr n"
| "jsToString (Str s) = Inr s"
| "jsToString (Arr xs) = jsJoinElements xs"
| "jsToString (Obj ps) =
     (case map_of ps ''toString'' of
        None \<Rightarrow> Inr ''[object Object]''
      | Some v \<Rightarrow> Inl TypeError)"
| "jsToString Other = Inr ''[object Object]''"
| "jsJoinElements [] = Inr []"
| "jsJoinElements (x # xs) =
     (case (if x = Undefined \<or> x = Null then Inr [] else jsToString x) of
        Inl f \<Rightarrow> Inl f
      | Inr first \<Rightarrow>
          if xs = [] then Inr first
          else (case jsJoinElements xs of
                  Inl f \<Rightarrow> Inl f
                | Inr rest \<Rightarrow> Inr (first @ '','' @ rest)))"

text \<open>The string a value is, where the code has checked \<^verbatim>\<open>typeof v === 'string'\<close>
  before it uses it; no path of the validators applies it to another value.\<close>

fun asString :: "jsval \<Rightarrow> string" where
  "asString (Str s) = s"
| "asString v = []"

text \<open>What \<^verbatim>\<open>${r.error}\<close> prints for a result \<open>r\<close>.\<close>

definition errorText :: "result \<Rightarrow> string" where
  "errorText r = (case error r of Some e \<Rightarrow> e | None \<Rightarrow> ''undefined'')"

section \<open>URL validation (\<^verbatim>\<open>scripts/utils/url-validator.js\<close>)\<close>

definition validateURLFormat :: "jsval \<Rightarrow> result" where
  "validateURLFormat urlString =
     (case urlString of
        Str u \<Rightarrow>
          if length u > MAX_URL_LENGTH
          then failed (''URL too long: '' @ decimal (length u) @ '' chars (max: ''
                        @ decimal MAX_URL_LENGTH @ '')'')
          else if reTest (reOne isNewline reAccept) u
          then failed ''URL contains newline characters''
          else if reTest (reOne isSpace reAccept) u
          then failed ''URL contains whitespace''
          else if \<not> reTestAnchored URL_HTTPS_PATTERN u
          then failed ''URL must start with https:// and be properly formatted''
          else passed
      | _ \<Rightarrow> failed ''URL must be a string'')"

definition isBlockedHost :: "string \<Rightarrow> bool" where
  "isBlockedHost host =
     (let lowerHostname = toLowerCase host
      in if lowerHostname \<in> set BLOCKED_HOSTS then True
         else list_ex (\<lambda>pattern. reTestAnchored pattern lowerHostname) BLOCKED_IP_PATTERNS)"

definition validateURL :: "urlConstructor \<Rightarrow> jsval \<Rightarrow> string \<Rightarrow> result" where
  "validateURL newURL urlString fieldName =
     (let formatCheck = validateURLFormat urlString
      in if \<not> valid formatCheck
         then failed (fieldName @ '': '' @ errorText formatCheck)
         else
           (case newURL (asString urlString) of
              Inl message \<Rightarrow> failed (fieldName @ '' is not a valid URL: '' @ message)
            | Inr url \<Rightarrow>
                if protocol url \<noteq> ''https:''
                then failed (fieldName @ '' must use HTTPS protocol'')
                else if isBlockedHost (hostname url)
                then failed (fieldName @ '' hostname is blocked (potential SSRF): ''
                              @ hostname url)
                else if port url \<noteq> [] \<and> port url \<noteq> ''443''
                then failed (fieldName @ '' uses non-standard HTTPS port: '' @ port url)
                else passed))"



section \<open>File names and paths (\<^verbatim>\<open>scripts/utils/file-utils.js\<close>)\<close>

definition validateSafeFilename :: "jsval \<Rightarrow> result" where
  "validateSafeFilename filename =
     (case filename of
        Str f \<Rightarrow>
          if includes_str f ''..'' \<or> includes_str f ''/'' \<or> includes_str f [CHR 0x5C]
          then failed (''Path traversal detected in filename: '' @ f)
          else if includes_str f [CHR 0x00]
          then failed ''Filename contains null byte''
          else if reTest (reOne isControl reAccept) f
          then failed ''Filename contains control characters''
          else passed
      | _ \<Rightarrow> failed ''Filename must be a string'')"


text \<open>The first loop of \<open>safePathJoin\<close>: the result of the first part that fails
  \<open>validateSafeFilename\<close>, if there is one.\<close>

fun firstUnsafePart :: "string list \<Rightarrow> result option" where
  "firstUnsafePart [] = None"
| "firstUnsafePart (part # parts) =
     (let validation = validateSafeFilename (Str part)
      in if \<not> valid validation then Some validation else firstUnsafePart parts)"

text \<open>\<open>safePathJoin\<close> on string arguments, for which \<^verbatim>\<open>path.join\<close> and
  \<^verbatim>\<open>path.resolve\<close> do not throw.\<close>

definition safePathJoin :: "pathModule \<Rightarrow> string \<Rightarrow> string list \<Rightarrow> result" where
  "safePathJoin P baseDir parts =
     (case firstUnsafePart parts of
        Some validation \<Rightarrow> validation
      | None \<Rightarrow>
          (let fullPath = pathJoin P (baseDir # parts);
               resolvedPath = pathResolve P fullPath;
               resolvedBase = pathResolve P baseDir
           in if \<not> startsWith resolvedPath (resolvedBase @ pathSep P)
                 \<and> resolvedPath \<noteq> resolvedBase
              then failed (''Path escapes base directory: '' @ joinWith ''/'' parts)
              else passed\<lparr>path := Some fullPath\<rparr>))"

section \<open>Addresses (\<^verbatim>\<open>scripts/utils/address-validator.js\<close>)\<close>

definition isValidAddressFormat :: "jsval \<Rightarrow> bool" where
  "isValidAddressFormat address =
     (case address of
        Str a \<Rightarrow> if length a \<noteq> ADDRESS_LENGTH then False else reTestAnchored ADDRESS_PATTERN a
      | _ \<Rightarrow> False)"

definition validateEIP55Checksum :: "addressLibrary \<Rightarrow> jsval \<Rightarrow> string \<Rightarrow> result" where
  "validateEIP55Checksum getAddress address context =
     (if \<not> isValidAddressFormat address
      then failed (''Invalid address format for '' @ context
                    @ '': must be 0x + 40 hex characters'')
      else if address = Str ''0x0000000000000000000000000000000000000000''
      then failed (''Zero address not allowed for '' @ context)
      else
        (case getAddress (asString address) of
           Inl message \<Rightarrow> failed (''Invalid address for '' @ context @ '': '' @ message)
         | Inr checksum \<Rightarrow>
             if asString address \<noteq> checksum
             then (failed (''Invalid EIP-55 checksum for '' @ context @ '': should be ''
                            @ checksum))
                  \<lparr>checksummed := Some checksum\<rparr>
             else passed\<lparr>checksummed := Some checksum\<rparr>))"




section \<open>ABI validation (\<^verbatim>\<open>scripts/validators/abi-validator.js\<close>)\<close>



text \<open>A single quotation mark, for the messages that quote a name.\<close>

definition quote :: string where
  "quote = [CHR 0x27]"




















section \<open>Solidity validation (\<^verbatim>\<open>scripts/validators/solidity-validator.js\<close>)\<close>




























section \<open>The contract of a result\<close>

text \<open>
  The invariant the specification gives for a validation result: a valid result has no
  \<^verbatim>\<open>error\<close> field, and an invalid one has an \<^verbatim>\<open>error\<close> that is a non-empty string.
\<close>

definition resultInvariant :: "result \<Rightarrow> bool" where
  "resultInvariant r =
     (case error r of None \<Rightarrow> valid r | Some e \<Rightarrow> \<not> valid r \<and> e \<noteq> [])"


section \<open>Verification\<close>

subsection \<open>Decimal renderings\<close>


lemma digitChar_digit: "m < 10 \<Longrightarrow> isDigit (digitChar m)"
proof -
  assume "m < 10"
  then consider "m = 0" | "m = 1" | "m = 2" | "m = 3" | "m = 4" | "m = 5" | "m = 6" | "m = 7" | "m = 8" | "m = 9"
    by atomize_elim presburger
  then show ?thesis
    by cases (simp_all add: digitChar_def isDigit_def)
qed

subsection \<open>Safe JSON parsing\<close>

lemma decimal_digits: "list_all isDigit (decimal n)"
proof (induction n rule: decimal.induct)
  case (1 n)
  show ?case
  proof (cases "n < 10")
    case True
    then show ?thesis by (subst decimal.simps) (simp add: digitChar_digit)
  next
    case False
    then have "list_all isDigit (decimal (n div 10))" using 1 by simp
    moreover have "isDigit (digitChar (n mod 10))" by (simp add: digitChar_digit)
    ultimately show ?thesis using False by (subst decimal.simps) simp
  qed
qed


lemma decimal_not_dangerous: "decimal i \<notin> set dangerousKeys"
proof
  assume a: "decimal i \<in> set dangerousKeys"
  have "list_all isDigit (decimal i)" by (rule decimal_digits)
  with a show False
    by (auto simp: dangerousKeys_def isDigit_def)
qed

lemma reviver_dangerous: "k \<in> set dangerousKeys \<Longrightarrow> reviver k v = Undefined"
  by (auto simp: reviver_def dangerousKeys_def)

lemma reviver_other: "k \<notin> set dangerousKeys \<Longrightarrow> reviver k v = v"
  by (auto simp: reviver_def dangerousKeys_def)

lemma internalize_dangerous:
  "k \<in> set dangerousKeys \<Longrightarrow> internalize reviver k v = Undefined"
  by (cases v) (simp_all add: reviver_dangerous)

lemma keyFree_reviver: "keyFree v \<Longrightarrow> keyFree (reviver k v)"
  by (simp add: reviver_def)

lemma internalize_keyFree_aux:
  "r = reviver \<Longrightarrow> keyFree (internalize r name v)"
  "r = reviver \<Longrightarrow> keyFreeElements (internalizeElements r i xs)"
  "r = reviver \<Longrightarrow> keyFreeProperties (internalizeProperties r ps)"
proof (induction r name v and r i xs and r ps
       rule: internalize_internalizeElements_internalizeProperties.induct)
  case (7 r p v ps)
  show ?case
  proof (cases "internalize r p v = Undefined")
    case True
    with 7 show ?thesis by simp
  next
    case False
    then have "p \<notin> set dangerousKeys" using internalize_dangerous 7 by blast
    with False 7 show ?thesis by simp
  qed
qed (simp_all add: keyFree_reviver)

lemmas internalize_keyFree = internalize_keyFree_aux [OF refl]

lemma keyFreeProperties_filter:
  "keyFreeProperties ps \<Longrightarrow> keyFreeProperties (filter P ps)"
  by (induction ps) auto

lemma keyFree_deleteProperty: "keyFree v \<Longrightarrow> keyFree (deleteProperty k v)"
  by (cases v) (simp_all add: keyFreeProperties_filter)

text \<open>
  Claim C1. Whatever text \<^verbatim>\<open>JSON.parse\<close> accepts, the tree \<open>safeParse\<close> returns has no
  key \<^verbatim>\<open>__proto__\<close>, \<^verbatim>\<open>constructor\<close> or \<^verbatim>\<open>prototype\<close> at any depth: the reviver drops
  them while the tree is built. For the payload \<^verbatim>\<open>{"__proto__":{"polluted":true}}\<close> the
  result is the empty object, and reading \<^verbatim>\<open>polluted\<close> from an empty object gives
  \<^verbatim>\<open>undefined\<close>.
\<close>

theorem safeParse_drops_dangerous_keys:
  "(\<forall>jsonParse input tree. safeParse jsonParse input = Inr tree \<longrightarrow> keyFree tree) \<and>
   (\<forall>jsonParse. jsonParse pollutionPayload = Some pollutionTree \<longrightarrow>
      safeParse jsonParse pollutionPayload = Inr (Obj []) \<and>
      jsGet (Obj []) ''polluted'' = Undefined)"
proof (intro conjI allI impI)
  fix jsonParse input tree
  assume "safeParse jsonParse input = Inr tree"
  then show "keyFree tree"
    by (auto simp: safeParse_def Let_def internalize_keyFree keyFree_deleteProperty
             split: option.splits if_splits)
next
  fix jsonParse :: "string \<Rightarrow> jsval option"
  assume "jsonParse pollutionPayload = Some pollutionTree"
  then show "safeParse jsonParse pollutionPayload = Inr (Obj [])"
    by (simp add: safeParse_def pollutionTree_def reviver_def)
next
  show "jsGet (Obj []) ''polluted'' = Undefined"
    by (simp add: objectPrototypeKeys_def)
qed

theorem safeParse_drops_dangerous_keys_witness:
  "safeParse exampleJsonParse pollutionPayload = Inr (Obj []) \<and> keyFree (Obj [])"
  using safeParse_drops_dangerous_keys
  by (simp add: exampleJsonParse_def)

subsection \<open>Strings and regular expressions\<close>


lemma startsWith_iff: "startsWith s p \<longleftrightarrow> (\<exists>r. s = p @ r)"
  unfolding startsWith_def
  by (metis append_eq_conv_conj append_take_drop_id)

lemma startsWith_append [simp]: "startsWith (p @ r) p"
  by (simp add: startsWith_def)

lemma includes_str_iff: "includes_str s p \<longleftrightarrow> (\<exists>a b. s = a @ p @ b)"
proof (induction s)
  case Nil
  then show ?case by auto
next
  case (Cons c cs)
  show ?case
  proof
    assume "includes_str (c # cs) p"
    then consider "startsWith (c # cs) p" | "includes_str cs p" by auto
    then show "\<exists>a b. c # cs = a @ p @ b"
    proof cases
      case 1
      then obtain r where "c # cs = p @ r" using startsWith_iff by blast
      then have "c # cs = [] @ p @ r" by simp
      then show ?thesis by blast
    next
      case 2
      then obtain a b where "cs = a @ p @ b" using Cons.IH by blast
      then have "c # cs = (c # a) @ p @ b" by simp
      then show ?thesis by blast
    qed
  next
    assume "\<exists>a b. c # cs = a @ p @ b"
    then obtain a b where ab: "c # cs = a @ p @ b" by blast
    show "includes_str (c # cs) p"
    proof (cases a)
      case Nil
      with ab have "startsWith (c # cs) p" by (simp add: startsWith_iff)
      then show ?thesis by simp
    next
      case (Cons x xs)
      with ab have "cs = xs @ p @ b" by simp
      then have "includes_str cs p" using Cons.IH by blast
      then show ?thesis by simp
    qed
  qed
qed

lemma reLit_append [simp]: "reLit p k (p @ r) = k r"
  by (simp add: reLit_def)

lemma reLit_Some_iff: "reLit p k s = Some x \<longleftrightarrow> (\<exists>r. s = p @ r \<and> k r = Some x)"
  by (auto simp: reLit_def startsWith_iff)




lemma rePlus_Nil [simp]: "rePlus P k [] = None"
  by (simp add: rePlus_def)

lemma rePlus_Cons [simp]: "rePlus P k (c # cs) = (if P c then reStar P k cs else None)"
  by (simp add: rePlus_def)




lemma reTest_one: "reTest (reOne P reAccept) s \<longleftrightarrow> list_ex P s"
proof (induction s)
  case Nil
  then show ?case by (simp add: reTest_def reOne_def)
next
  case (Cons c cs)
  then show ?case
    by (auto simp: reTest_def reOne_def reAccept_def split: option.splits)
qed

subsection \<open>Blocked hosts\<close>


lemma toLowerCase_append: "toLowerCase (a @ b) = toLowerCase a @ toLowerCase b"
  by (simp add: toLowerCase_def)

lemma blockedPattern:
  "list_ex (\<lambda>pattern. reTestAnchored pattern (toLowerCase host)) BLOCKED_IP_PATTERNS
   \<Longrightarrow> isBlockedHost host"
  by (simp add: isBlockedHost_def)

lemma blockedLiteral: "toLowerCase host \<in> set BLOCKED_HOSTS \<Longrightarrow> isBlockedHost host"
  by (simp add: isBlockedHost_def)

lemma blocked_prefix_10: "isBlockedHost (''10.'' @ r)"
  by (rule blockedPattern)
     (simp add: BLOCKED_IP_PATTERNS_def reTestAnchored_def reAccept_def reLit_def startsWith_def
                toLowerCase_def toLowerChar_def)

lemma decimal_one_digit: "n < 10 \<Longrightarrow> decimal n = [digitChar n]"
  by (subst decimal.simps) simp

lemma decimal_two_digits:
  "10 \<le> n \<Longrightarrow> n < 100 \<Longrightarrow> decimal n = [digitChar (n div 10), digitChar (n mod 10)]"
  by (subst decimal.simps) (simp add: decimal_one_digit)

lemma blocked_prefix_172:
  assumes "16 \<le> n" "n \<le> 31"
  shows "isBlockedHost (''172.'' @ decimal n @ ''.'' @ r)"
proof -
  from assms consider "n = 16" | "n = 17" | "n = 18" | "n = 19" | "n = 20" | "n = 21"
    | "n = 22" | "n = 23" | "n = 24" | "n = 25" | "n = 26" | "n = 27" | "n = 28" | "n = 29"
    | "n = 30" | "n = 31"
    by atomize_elim presburger
  then show ?thesis
    by cases
       (simp_all add: isBlockedHost_def BLOCKED_IP_PATTERNS_def reTestAnchored_def reAccept_def
          reLit_def reAlt_def reOne_def startsWith_def toLowerCase_def toLowerChar_def
          decimal_two_digits digitChar_def isDigit_def)
qed

lemma blocked_prefixes:
  "isBlockedHost (''192.168.'' @ r)"
  "isBlockedHost (''127.'' @ r)"
  "isBlockedHost (''0.'' @ r)"
  "isBlockedHost (''169.254.'' @ r)"
  "isBlockedHost (''fe80:'' @ r)"
  "isBlockedHost (''fc00:'' @ r)"
  "isBlockedHost (''fd00:'' @ r)"
  by (simp_all add: isBlockedHost_def BLOCKED_IP_PATTERNS_def reTestAnchored_def reAccept_def
        reLit_def startsWith_def toLowerCase_def toLowerChar_def)

lemma blocked_loopback6: "isBlockedHost ''::1''"
  by (simp add: isBlockedHost_def BLOCKED_HOSTS_def toLowerCase_def toLowerChar_def)

lemma not_blocked_examples:
  "\<not> isBlockedHost ''example.com''" "\<not> isBlockedHost ''github.com''"
  by (simp_all add: isBlockedHost_def BLOCKED_HOSTS_def BLOCKED_IP_PATTERNS_def
        reTestAnchored_def reAccept_def reLit_def reAlt_def reOne_def reEnd_def startsWith_def
        toLowerCase_def toLowerChar_def)

text \<open>
  Claim C5. \<open>isBlockedHost\<close> is true for the literal hosts \<^verbatim>\<open>localhost\<close>,
  \<^verbatim>\<open>127.0.0.1\<close>, \<^verbatim>\<open>169.254.169.254\<close> and \<^verbatim>\<open>metadata.google.internal\<close> in any
  spelling of upper and lower case, for every host that starts with \<^verbatim>\<open>10.\<close>, with
  \<^verbatim>\<open>172.16.\<close> to \<^verbatim>\<open>172.31.\<close>, with \<^verbatim>\<open>192.168.\<close>, \<^verbatim>\<open>127.\<close>, \<^verbatim>\<open>0.\<close>, \<^verbatim>\<open>169.254.\<close>,
  \<^verbatim>\<open>fe80:\<close>, \<^verbatim>\<open>fc00:\<close> or \<^verbatim>\<open>fd00:\<close>, and for \<^verbatim>\<open>::1\<close>; it is false for
  \<^verbatim>\<open>example.com\<close> and \<^verbatim>\<open>github.com\<close>.
\<close>

theorem isBlockedHost_blocks:
  "(\<forall>host. toLowerCase host \<in> {''localhost'', ''127.0.0.1'', ''169.254.169.254'',
        ''metadata.google.internal''} \<longrightarrow> isBlockedHost host) \<and>
   (\<forall>r. isBlockedHost (''10.'' @ r)) \<and>
   (\<forall>n r. 16 \<le> n \<and> n \<le> 31 \<longrightarrow> isBlockedHost (''172.'' @ decimal n @ ''.'' @ r)) \<and>
   (\<forall>r. isBlockedHost (''192.168.'' @ r)) \<and>
   (\<forall>r. isBlockedHost (''127.'' @ r)) \<and>
   (\<forall>r. isBlockedHost (''0.'' @ r)) \<and>
   (\<forall>r. isBlockedHost (''169.254.'' @ r)) \<and>
   (\<forall>r. isBlockedHost (''fe80:'' @ r)) \<and>
   (\<forall>r. isBlockedHost (''fc00:'' @ r)) \<and>
   (\<forall>r. isBlockedHost (''fd00:'' @ r)) \<and>
   isBlockedHost ''::1'' \<and>
   \<not> isBlockedHost ''example.com'' \<and> \<not> isBlockedHost ''github.com''"
proof -
  have lit: "\<forall>host. toLowerCase host \<in> {''localhost'', ''127.0.0.1'', ''169.254.169.254'',
        ''metadata.google.internal''} \<longrightarrow> isBlockedHost host"
  proof (intro allI impI)
    fix host
    assume "toLowerCase host \<in> {''localhost'', ''127.0.0.1'', ''169.254.169.254'',
        ''metadata.google.internal''}"
    then have "toLowerCase host \<in> set BLOCKED_HOSTS"
      unfolding BLOCKED_HOSTS_def by auto
    then show "isBlockedHost host" by (rule blockedLiteral)
  qed
  show ?thesis
    using lit blocked_prefix_10 blocked_prefix_172 blocked_prefixes blocked_loopback6
      not_blocked_examples
    by blast
qed

theorem isBlockedHost_blocks_witness:
  "toLowerCase ''LOCALHOST'' = ''localhost'' \<and> isBlockedHost ''LOCALHOST'' \<and>
   decimal 16 = ''16'' \<and> isBlockedHost ''172.16.0.1''"
proof -
  have l: "toLowerCase ''LOCALHOST'' = ''localhost''"
    by (simp add: toLowerCase_def toLowerChar_def)
  have d: "decimal 16 = ''16''" by code_simp
  have "isBlockedHost ''LOCALHOST''"
    using isBlockedHost_blocks [THEN conjunct1, rule_format, of "''LOCALHOST''"] l by simp
  moreover have "isBlockedHost (''172.'' @ decimal 16 @ ''.'' @ ''0.1'')"
    using isBlockedHost_blocks
            [THEN conjunct2, THEN conjunct2, THEN conjunct1, rule_format, of 16 "''0.1''"]
    by simp
  ultimately show ?thesis using l d by simp
qed


subsection \<open>Fields of a result\<close>


lemma valid_failed [simp]: "\<not> valid (failed m)"
  by (simp add: failed_def)

lemma valid_passed [simp]: "valid passed"
  by (simp add: passed_def)

lemma failed_neq_passed [simp]: "failed m \<noteq> passed"
  by (simp add: failed_def passed_def)

lemma failed_inject [simp]: "failed m = failed m' \<longleftrightarrow> m = m'"
  by (simp add: failed_def)

lemma errorText_failed [simp]: "errorText (failed m) = m"
  by (simp add: errorText_def failed_def)

subsection \<open>URL validation\<close>

lemma validateURL_port_general:
  assumes "valid (validateURLFormat (Str u))" "newURL u = Inr url"
    "port url \<noteq> []" "port url \<noteq> ''443''"
  shows "\<not> valid (validateURL newURL (Str u) fieldName)"
    and "protocol url = ''https:'' \<and> \<not> isBlockedHost (hostname url) \<longrightarrow>
         validateURL newURL (Str u) fieldName
           = failed (fieldName @ '' uses non-standard HTTPS port: '' @ port url)"
  using assms by (simp_all add: validateURL_def)

lemma format_example_8080: "valid (validateURLFormat (Str ''https://example.com:8080/''))"
  by code_simp

lemma format_example: "valid (validateURLFormat (Str ''https://example.com/''))"
  by code_simp

lemma format_localhost: "valid (validateURLFormat (Str ''https://localhost:8080/''))"
  by code_simp

lemma example_com_allowed: "\<not> isBlockedHost ''example.com''"
  by code_simp

lemma localhost_blocked: "isBlockedHost ''localhost''"
  by code_simp

text \<open>
  Claim C7, as amended. A URL that passes the format check and whose parsed form has
  an explicit port other than \<^verbatim>\<open>443\<close> is always rejected; the message is the one
  about the non-standard port whenever the protocol is \<^verbatim>\<open>https:\<close> and the host is
  not blocked (the checks of the protocol and of the host come first and report
  instead). \<^verbatim>\<open>https://example.com:8080/\<close> is rejected with that message and
  \<^verbatim>\<open>https://example.com/\<close> is accepted, given what the \<^verbatim>\<open>URL\<close> constructor returns
  for them.
\<close>

theorem validateURL_rejects_other_ports:
  "(\<forall>newURL u fieldName url.
      valid (validateURLFormat (Str u)) \<and> newURL u = Inr url
        \<and> port url \<noteq> [] \<and> port url \<noteq> ''443'' \<longrightarrow>
      \<not> valid (validateURL newURL (Str u) fieldName) \<and>
      (protocol url = ''https:'' \<and> \<not> isBlockedHost (hostname url) \<longrightarrow>
         validateURL newURL (Str u) fieldName
           = failed (fieldName @ '' uses non-standard HTTPS port: '' @ port url))) \<and>
   (\<forall>newURL.
      newURL ''https://example.com:8080/''
        = Inr \<lparr>protocol = ''https:'', hostname = ''example.com'', port = ''8080''\<rparr> \<longrightarrow>
      validateURL newURL (Str ''https://example.com:8080/'') ''URL''
        = failed ''URL uses non-standard HTTPS port: 8080'') \<and>
   (\<forall>newURL.
      newURL ''https://example.com/''
        = Inr \<lparr>protocol = ''https:'', hostname = ''example.com'', port = []\<rparr> \<longrightarrow>
      validateURL newURL (Str ''https://example.com/'') ''URL'' = passed)"
proof (intro conjI allI impI)
  fix newURL :: urlConstructor and u fieldName url
  assume h: "valid (validateURLFormat (Str u)) \<and> newURL u = Inr url
        \<and> port url \<noteq> [] \<and> port url \<noteq> ''443''"
  then show "\<not> valid (validateURL newURL (Str u) fieldName)"
    by (simp add: validateURL_port_general(1))
  assume "protocol url = ''https:'' \<and> \<not> isBlockedHost (hostname url)"
  with h show "validateURL newURL (Str u) fieldName
           = failed (fieldName @ '' uses non-standard HTTPS port: '' @ port url)"
    using validateURL_port_general(2) by blast
next
  fix newURL :: urlConstructor
  assume "newURL ''https://example.com:8080/''
        = Inr \<lparr>protocol = ''https:'', hostname = ''example.com'', port = ''8080''\<rparr>"
  then show "validateURL newURL (Str ''https://example.com:8080/'') ''URL''
        = failed ''URL uses non-standard HTTPS port: 8080''"
    using format_example_8080 example_com_allowed by (simp add: validateURL_def)
next
  fix newURL :: urlConstructor
  assume "newURL ''https://example.com/''
        = Inr \<lparr>protocol = ''https:'', hostname = ''example.com'', port = []\<rparr>"
  then show "validateURL newURL (Str ''https://example.com/'') ''URL'' = passed"
    using format_example example_com_allowed by (simp add: validateURL_def)
qed

theorem validateURL_rejects_other_ports_witness:
  "valid (validateURLFormat (Str ''https://example.com:8080/'')) \<and>
   exampleURL ''https://example.com:8080/''
     = Inr \<lparr>protocol = ''https:'', hostname = ''example.com'', port = ''8080''\<rparr> \<and>
   \<not> isBlockedHost ''example.com'' \<and>
   validateURL exampleURL (Str ''https://example.com:8080/'') ''URL''
     = failed ''URL uses non-standard HTTPS port: 8080'' \<and>
   exampleURL ''https://example.com/''
     = Inr \<lparr>protocol = ''https:'', hostname = ''example.com'', port = []\<rparr> \<and>
   validateURL exampleURL (Str ''https://example.com/'') ''URL'' = passed"
proof -
  have a: "exampleURL ''https://example.com:8080/''
     = Inr \<lparr>protocol = ''https:'', hostname = ''example.com'', port = ''8080''\<rparr>"
    by (simp add: exampleURL_def)
  have b: "exampleURL ''https://example.com/''
     = Inr \<lparr>protocol = ''https:'', hostname = ''example.com'', port = []\<rparr>"
    by (simp add: exampleURL_def)
  note t = validateURL_rejects_other_ports
  from t a have "validateURL exampleURL (Str ''https://example.com:8080/'') ''URL''
     = failed ''URL uses non-standard HTTPS port: 8080''" by blast
  moreover from t b have "validateURL exampleURL (Str ''https://example.com/'') ''URL'' = passed"
    by blast
  ultimately show ?thesis
    using a b format_example_8080 example_com_allowed by simp
qed

text \<open>
  Claim C7 as stated fails for a blocked host with a port:
  \<^verbatim>\<open>https://localhost:8080/\<close> passes the format check and carries the port 8080,
  and is rejected with the message about the blocked host, not the one about the port.
\<close>

theorem validateURL_blocked_host_counterexample:
  "valid (validateURLFormat (Str ''https://localhost:8080/'')) \<and>
   exampleURL ''https://localhost:8080/''
     = Inr \<lparr>protocol = ''https:'', hostname = ''localhost'', port = ''8080''\<rparr> \<and>
   validateURL exampleURL (Str ''https://localhost:8080/'') ''URL''
     = failed ''URL hostname is blocked (potential SSRF): localhost'' \<and>
   \<not> includes_str ''URL hostname is blocked (potential SSRF): localhost'' ''non-standard''"
proof -
  have a: "exampleURL ''https://localhost:8080/''
     = Inr \<lparr>protocol = ''https:'', hostname = ''localhost'', port = ''8080''\<rparr>"
    by (simp add: exampleURL_def)
  have b: "\<not> includes_str ''URL hostname is blocked (potential SSRF): localhost'' ''non-standard''"
    by code_simp
  have "validateURL exampleURL (Str ''https://localhost:8080/'') ''URL''
     = failed ''URL hostname is blocked (potential SSRF): localhost''"
    using a format_localhost localhost_blocked by (simp add: validateURL_def)
  with a b format_localhost show ?thesis by simp
qed

subsection \<open>Path construction\<close>


lemma firstUnsafePart_invalid: "firstUnsafePart parts = Some r \<Longrightarrow> \<not> valid r"
  by (induction parts) (auto simp: Let_def split: if_splits)

lemma firstUnsafePart_None:
  "firstUnsafePart parts = None \<longleftrightarrow> (\<forall>p \<in> set parts. valid (validateSafeFilename (Str p)))"
  by (induction parts) (auto simp: Let_def)

lemma valid_passed_path [simp]: "valid (passed\<lparr>path := x\<rparr>)"
  by (simp add: passed_def)

lemma safePathJoin_valid_iff:
  "valid (safePathJoin P baseDir parts) \<longleftrightarrow>
     (\<forall>p \<in> set parts. valid (validateSafeFilename (Str p))) \<and>
     (startsWith (pathResolve P (pathJoin P (baseDir # parts))) (pathResolve P baseDir @ pathSep P)
      \<or> pathResolve P (pathJoin P (baseDir # parts)) = pathResolve P baseDir)"
proof (cases "firstUnsafePart parts")
  case None
  then show ?thesis
    using firstUnsafePart_None [of parts] by (auto simp: safePathJoin_def Let_def)
next
  case (Some r)
  then have "\<not> valid r" by (rule firstUnsafePart_invalid)
  moreover from Some have "\<not> (\<forall>p \<in> set parts. valid (validateSafeFilename (Str p)))"
    using firstUnsafePart_None [of parts] by simp
  ultimately show ?thesis using Some by (simp add: safePathJoin_def)
qed

lemma unsafe_dotdot: "\<not> valid (validateSafeFilename (Str ''../x''))"
  by code_simp

lemma safe_examples: "firstUnsafePart [''sub'', ''f.txt''] = None"
  by code_simp

lemma posixJoin_example: "posixJoin [''/base'', ''sub'', ''f.txt''] = ''/base/sub/f.txt''"
  by code_simp

lemma posixResolve_example:
  "posixResolve cwd ''/base/sub/f.txt'' = ''/base/sub/f.txt''"
  "posixResolve cwd ''/base'' = ''/base''"
proof -
  have "normalizeString ''/base/sub/f.txt/'' False = ''base/sub/f.txt''" by code_simp
  then show "posixResolve cwd ''/base/sub/f.txt'' = ''/base/sub/f.txt''"
    by (simp add: posixResolve_def)
  have "normalizeString ''/base/'' False = ''base''" by code_simp
  then show "posixResolve cwd ''/base'' = ''/base''"
    by (simp add: posixResolve_def)
qed

text \<open>
  Claim C6. \<open>safePathJoin\<close> fails whenever the resolved joined path neither starts
  with the resolved base followed by the separator nor equals the resolved base, for
  any \<^verbatim>\<open>path\<close> module. \<^verbatim>\<open>safePathJoin('/base', '../x')\<close> fails;
  \<^verbatim>\<open>safePathJoin('/base', 'sub', 'f.txt')\<close> succeeds on POSIX, from any working
  directory, with the path \<^verbatim>\<open>/base/sub/f.txt\<close>, which contains \<^verbatim>\<open>sub\<close> and \<^verbatim>\<open>f.txt\<close>.
\<close>

theorem safePathJoin_confined:
  "(\<forall>P baseDir parts.
      \<not> startsWith (pathResolve P (pathJoin P (baseDir # parts)))
           (pathResolve P baseDir @ pathSep P)
      \<and> pathResolve P (pathJoin P (baseDir # parts)) \<noteq> pathResolve P baseDir \<longrightarrow>
      \<not> valid (safePathJoin P baseDir parts)) \<and>
   (\<forall>P. \<not> valid (safePathJoin P ''/base'' [''../x''])) \<and>
   (\<forall>cwd. safePathJoin (posixPath cwd) ''/base'' [''sub'', ''f.txt'']
            = passed\<lparr>path := Some ''/base/sub/f.txt''\<rparr>) \<and>
   includes_str ''/base/sub/f.txt'' ''sub'' \<and> includes_str ''/base/sub/f.txt'' ''f.txt''"
proof (intro conjI allI impI)
  fix P :: pathModule and baseDir parts
  assume "\<not> startsWith (pathResolve P (pathJoin P (baseDir # parts)))
           (pathResolve P baseDir @ pathSep P)
      \<and> pathResolve P (pathJoin P (baseDir # parts)) \<noteq> pathResolve P baseDir"
  then show "\<not> valid (safePathJoin P baseDir parts)"
    by (simp add: safePathJoin_valid_iff)
next
  fix P :: pathModule
  show "\<not> valid (safePathJoin P ''/base'' [''../x''])"
    using unsafe_dotdot by (simp add: safePathJoin_valid_iff)
next
  fix cwd
  have "startsWith ''/base/sub/f.txt'' (''/base'' @ ''/'')" by code_simp
  then show "safePathJoin (posixPath cwd) ''/base'' [''sub'', ''f.txt'']
            = passed\<lparr>path := Some ''/base/sub/f.txt''\<rparr>"
    by (simp add: safePathJoin_def safe_examples posixPath_def posixJoin_example
          posixResolve_example Let_def del: firstUnsafePart.simps)
next
  show "includes_str ''/base/sub/f.txt'' ''sub''" by code_simp
next
  show "includes_str ''/base/sub/f.txt'' ''f.txt''" by code_simp
qed

theorem safePathJoin_confined_witness:
  "\<not> startsWith (pathResolve (posixPath ''/home'') (pathJoin (posixPath ''/home'') [''/base'', ''..'']))
       (pathResolve (posixPath ''/home'') ''/base'' @ pathSep (posixPath ''/home'')) \<and>
   pathResolve (posixPath ''/home'') (pathJoin (posixPath ''/home'') [''/base'', ''..''])
     \<noteq> pathResolve (posixPath ''/home'') ''/base'' \<and>
   \<not> valid (safePathJoin (posixPath ''/home'') ''/base'' [''..''])"
proof -
  have a: "\<not> startsWith (pathResolve (posixPath ''/home'') (pathJoin (posixPath ''/home'') [''/base'', ''..'']))
       (pathResolve (posixPath ''/home'') ''/base'' @ pathSep (posixPath ''/home''))"
    by code_simp
  have b: "pathResolve (posixPath ''/home'') (pathJoin (posixPath ''/home'') [''/base'', ''..''])
     \<noteq> pathResolve (posixPath ''/home'') ''/base''"
    by code_simp
  from a b safePathJoin_confined
  have "\<not> valid (safePathJoin (posixPath ''/home'') ''/base'' [''..''])" by blast
  with a b show ?thesis by simp
qed

subsection \<open>Address checksums\<close>


lemma valid_passed_checksummed [simp]: "valid (passed\<lparr>checksummed := x\<rparr>)"
  by (simp add: passed_def)

lemma valid_failed_checksummed [simp]: "\<not> valid ((failed m)\<lparr>checksummed := x\<rparr>)"
  by (simp add: failed_def)

lemma zeroAddress_format: "isValidAddressFormat (Str zeroAddress)"
  by code_simp

lemma registry_address_format:
  "isValidAddressFormat (Str ''0x00c1E515EA9579856304198EFb15f525A0bb50f6'')"
  by code_simp

lemma wrong_case_address_format:
  "isValidAddressFormat (Str ''0x5aAeb6053f3E94C9b9A09f33669435E7Ef1BeAed'')"
  by code_simp

lemma validateEIP55Checksum_nonzero:
  assumes "isValidAddressFormat (Str a)" "a \<noteq> zeroAddress"
  shows "validateEIP55Checksum getAddress (Str a) context =
     (case getAddress a of
        Inl message \<Rightarrow> failed (''Invalid address for '' @ context @ '': '' @ message)
      | Inr checksum \<Rightarrow>
          if a \<noteq> checksum
          then (failed (''Invalid EIP-55 checksum for '' @ context @ '': should be '' @ checksum))
               \<lparr>checksummed := Some checksum\<rparr>
          else passed\<lparr>checksummed := Some checksum\<rparr>)"
  using assms by (simp add: validateEIP55Checksum_def zeroAddress_def split: sum.splits)

lemma validateEIP55Checksum_zero:
  "validateEIP55Checksum getAddress (Str zeroAddress) context
     = failed (''Zero address not allowed for '' @ context)"
  using zeroAddress_format by (simp add: validateEIP55Checksum_def zeroAddress_def)

text \<open>
  Claim C3, as amended. For every address of valid format other than the zero address,
  \<open>validateEIP55Checksum\<close> is valid if and only if \<^verbatim>\<open>getAddress\<close> returns the
  address itself, that is, the address equals its canonical EIP-55 rendering. For the
  zero address the result is always invalid, with the message
  \<^verbatim>\<open>Zero address not allowed for <context>\<close>.
\<close>

theorem validateEIP55Checksum_valid_iff_canonical:
  "(\<forall>getAddress a context.
      isValidAddressFormat (Str a) \<and> a \<noteq> zeroAddress \<longrightarrow>
      (valid (validateEIP55Checksum getAddress (Str a) context) \<longleftrightarrow> getAddress a = Inr a)) \<and>
   (\<forall>getAddress context.
      validateEIP55Checksum getAddress (Str zeroAddress) context
        = failed (''Zero address not allowed for '' @ context))"
proof (intro conjI allI impI)
  fix getAddress :: addressLibrary and a ctx
  assume "isValidAddressFormat (Str a) \<and> a \<noteq> zeroAddress"
  then show "valid (validateEIP55Checksum getAddress (Str a) ctx) \<longleftrightarrow> getAddress a = Inr a"
    by (auto simp: validateEIP55Checksum_nonzero split: sum.splits)
next
  fix getAddress :: addressLibrary and ctx
  show "validateEIP55Checksum getAddress (Str zeroAddress) ctx
        = failed (''Zero address not allowed for '' @ ctx)"
    by (rule validateEIP55Checksum_zero)
qed

theorem validateEIP55Checksum_valid_iff_canonical_witness:
  "isValidAddressFormat (Str ''0x00c1E515EA9579856304198EFb15f525A0bb50f6'') \<and>
   ''0x00c1E515EA9579856304198EFb15f525A0bb50f6'' \<noteq> zeroAddress \<and>
   exampleGetAddress ''0x00c1E515EA9579856304198EFb15f525A0bb50f6''
     = Inr ''0x00c1E515EA9579856304198EFb15f525A0bb50f6'' \<and>
   valid (validateEIP55Checksum exampleGetAddress
            (Str ''0x00c1E515EA9579856304198EFb15f525A0bb50f6'') ''address'')"
proof -
  have n: "''0x00c1E515EA9579856304198EFb15f525A0bb50f6'' \<noteq> zeroAddress"
    by (simp add: zeroAddress_def)
  have g: "exampleGetAddress ''0x00c1E515EA9579856304198EFb15f525A0bb50f6''
     = Inr ''0x00c1E515EA9579856304198EFb15f525A0bb50f6''"
    by (simp add: exampleGetAddress_def)
  from validateEIP55Checksum_valid_iff_canonical registry_address_format n g
  have "valid (validateEIP55Checksum exampleGetAddress
            (Str ''0x00c1E515EA9579856304198EFb15f525A0bb50f6'') ''address'')"
    by blast
  with registry_address_format n g show ?thesis by simp
qed

text \<open>
  Claim C3 as stated fails at the zero address: it has the valid format and equals its
  canonical rendering (it has no letter to put in upper case), and it is rejected.
\<close>

theorem zero_address_counterexample:
  "isValidAddressFormat (Str zeroAddress) \<and>
   exampleGetAddress zeroAddress = Inr zeroAddress \<and>
   \<not> valid (validateEIP55Checksum exampleGetAddress (Str zeroAddress) ''address'')"
proof -
  have "exampleGetAddress zeroAddress = Inr zeroAddress"
    by (simp add: exampleGetAddress_def zeroAddress_def)
  then show ?thesis
    using zeroAddress_format by (simp add: validateEIP55Checksum_zero)
qed

text \<open>
  Claim C4, as amended. For every address of valid format other than the zero address:
  if \<^verbatim>\<open>getAddress\<close> returns a canonical rendering that differs from the input, the
  result is invalid and its message ends with \<^verbatim>\<open>should be\<close> and that rendering; if
  \<^verbatim>\<open>getAddress\<close> itself throws, the result is invalid with the message
  \<^verbatim>\<open>Invalid address for <context>:\<close> followed by the library's message; and the result is
  never valid unless \<^verbatim>\<open>getAddress\<close> returns the input itself.
\<close>

theorem validateEIP55Checksum_rejects_mismatch:
  "\<forall>getAddress a context.
      isValidAddressFormat (Str a) \<and> a \<noteq> zeroAddress \<longrightarrow>
      (\<forall>c. getAddress a = Inr c \<and> c \<noteq> a \<longrightarrow>
         validateEIP55Checksum getAddress (Str a) context
           = (failed (''Invalid EIP-55 checksum for '' @ context @ '': should be '' @ c))
             \<lparr>checksummed := Some c\<rparr>) \<and>
      (\<forall>m. getAddress a = Inl m \<longrightarrow>
         validateEIP55Checksum getAddress (Str a) context
           = failed (''Invalid address for '' @ context @ '': '' @ m)) \<and>
      (getAddress a \<noteq> Inr a \<longrightarrow>
         \<not> valid (validateEIP55Checksum getAddress (Str a) context))"
proof (intro allI impI)
  fix getAddress :: addressLibrary and a ctx
  assume "isValidAddressFormat (Str a) \<and> a \<noteq> zeroAddress"
  then have e: "validateEIP55Checksum getAddress (Str a) ctx =
     (case getAddress a of
        Inl message \<Rightarrow> failed (''Invalid address for '' @ ctx @ '': '' @ message)
      | Inr checksum \<Rightarrow>
          if a \<noteq> checksum
          then (failed (''Invalid EIP-55 checksum for '' @ ctx @ '': should be '' @ checksum))
               \<lparr>checksummed := Some checksum\<rparr>
          else passed\<lparr>checksummed := Some checksum\<rparr>)"
    by (simp add: validateEIP55Checksum_nonzero)
  show "(\<forall>c. getAddress a = Inr c \<and> c \<noteq> a \<longrightarrow>
         validateEIP55Checksum getAddress (Str a) ctx
           = (failed (''Invalid EIP-55 checksum for '' @ ctx @ '': should be '' @ c))
             \<lparr>checksummed := Some c\<rparr>) \<and>
      (\<forall>m. getAddress a = Inl m \<longrightarrow>
         validateEIP55Checksum getAddress (Str a) ctx
           = failed (''Invalid address for '' @ ctx @ '': '' @ m)) \<and>
      (getAddress a \<noteq> Inr a \<longrightarrow>
         \<not> valid (validateEIP55Checksum getAddress (Str a) ctx))"
    unfolding e by (auto split: sum.splits)
qed

theorem validateEIP55Checksum_rejects_mismatch_witness:
  "isValidAddressFormat (Str ''0x00c1e515ea9579856304198efb15f525a0bb50f6'') \<and>
   ''0x00c1e515ea9579856304198efb15f525a0bb50f6'' \<noteq> zeroAddress \<and>
   exampleGetAddress ''0x00c1e515ea9579856304198efb15f525a0bb50f6''
     = Inr ''0x00c1E515EA9579856304198EFb15f525A0bb50f6'' \<and>
   ''0x00c1E515EA9579856304198EFb15f525A0bb50f6'' \<noteq> ''0x00c1e515ea9579856304198efb15f525a0bb50f6'' \<and>
   validateEIP55Checksum exampleGetAddress
       (Str ''0x00c1e515ea9579856304198efb15f525a0bb50f6'') ''address''
     = (failed (''Invalid EIP-55 checksum for address: should be 0x00c1E515EA9579856304198EFb15f525A0bb50f6''))
       \<lparr>checksummed := Some ''0x00c1E515EA9579856304198EFb15f525A0bb50f6''\<rparr>"
proof -
  have f: "isValidAddressFormat (Str ''0x00c1e515ea9579856304198efb15f525a0bb50f6'')"
    by code_simp
  have n: "''0x00c1e515ea9579856304198efb15f525a0bb50f6'' \<noteq> zeroAddress"
    by (simp add: zeroAddress_def)
  have g: "exampleGetAddress ''0x00c1e515ea9579856304198efb15f525a0bb50f6''
     = Inr ''0x00c1E515EA9579856304198EFb15f525A0bb50f6''"
    by (simp add: exampleGetAddress_def)
  have d: "''0x00c1E515EA9579856304198EFb15f525A0bb50f6'' \<noteq> ''0x00c1e515ea9579856304198efb15f525a0bb50f6''"
    by simp
  from validateEIP55Checksum_rejects_mismatch
         [rule_format, of "''0x00c1e515ea9579856304198efb15f525a0bb50f6''" exampleGetAddress
            "''address''", THEN conjunct1, rule_format,
          of "''0x00c1E515EA9579856304198EFb15f525A0bb50f6''"] f n g d
  have "validateEIP55Checksum exampleGetAddress
       (Str ''0x00c1e515ea9579856304198efb15f525a0bb50f6'') ''address''
     = (failed (''Invalid EIP-55 checksum for '' @ ''address'' @ '': should be ''
                 @ ''0x00c1E515EA9579856304198EFb15f525A0bb50f6''))
       \<lparr>checksummed := Some ''0x00c1E515EA9579856304198EFb15f525A0bb50f6''\<rparr>"
    by blast
  with f n g d show ?thesis by simp
qed

text \<open>
  Claim C4 as stated fails on the address of the unit test "should reject invalid
  checksum": it has mixed case and a wrong checksum, \<^verbatim>\<open>getAddress\<close> throws on it, and
  the message of the result is the library's, which does not name the checksummed form
  \<^verbatim>\<open>0x5aAeb6053F3E94C9b9A09f33669435E7Ef1BeAed\<close>.
\<close>

theorem wrong_case_address_counterexample:
  "isValidAddressFormat (Str ''0x5aAeb6053f3E94C9b9A09f33669435E7Ef1BeAed'') \<and>
   ''0x5aAeb6053f3E94C9b9A09f33669435E7Ef1BeAed'' \<noteq> zeroAddress \<and>
   exampleGetAddress ''0x5aAeb6053f3E94C9b9A09f33669435E7Ef1BeAed''
     \<noteq> Inr ''0x5aAeb6053f3E94C9b9A09f33669435E7Ef1BeAed'' \<and>
   validateEIP55Checksum exampleGetAddress
       (Str ''0x5aAeb6053f3E94C9b9A09f33669435E7Ef1BeAed'') ''address''
     = failed ''Invalid address for address: bad address checksum'' \<and>
   \<not> includes_str ''Invalid address for address: bad address checksum''
        ''0x5aAeb6053F3E94C9b9A09f33669435E7Ef1BeAed''"
proof -
  have n: "''0x5aAeb6053f3E94C9b9A09f33669435E7Ef1BeAed'' \<noteq> zeroAddress"
    by (simp add: zeroAddress_def)
  have g: "exampleGetAddress ''0x5aAeb6053f3E94C9b9A09f33669435E7Ef1BeAed''
     = Inl ''bad address checksum''"
    by (simp add: exampleGetAddress_def zeroAddress_def)
  have i: "\<not> includes_str ''Invalid address for address: bad address checksum''
        ''0x5aAeb6053F3E94C9b9A09f33669435E7Ef1BeAed''"
    by code_simp
  have "validateEIP55Checksum exampleGetAddress
       (Str ''0x5aAeb6053f3E94C9b9A09f33669435E7Ef1BeAed'') ''address''
     = failed ''Invalid address for address: bad address checksum''"
    using wrong_case_address_format n g by (simp add: validateEIP55Checksum_nonzero)
  with wrong_case_address_format n g i show ?thesis by simp
qed

subsection \<open>Solidity declarations\<close>




lemma reAccept_matches [simp]: "reAccept s \<noteq> None"
  by (simp add: reAccept_def)













lemma error_failed [simp]: "error (failed m) = Some m"
  by (simp add: failed_def)

lemma error_passed_warnings [simp]: "error (passed\<lparr>warnings := w\<rparr>) = None"
  by (simp add: passed_def)










subsection \<open>The contract of results, and ABI parameters\<close>


lemma resultInvariant_failed [simp]: "resultInvariant (failed m) \<longleftrightarrow> m \<noteq> []"
  by (simp add: resultInvariant_def failed_def)

lemma resultInvariant_passed [simp]: "resultInvariant passed"
  by (simp add: resultInvariant_def passed_def)

lemma resultInvariant_update [simp]:
  "resultInvariant (r\<lparr>warnings := w\<rparr>) = resultInvariant r"
  "resultInvariant (r\<lparr>checksummed := c\<rparr>) = resultInvariant r"
  "resultInvariant (r\<lparr>path := p\<rparr>) = resultInvariant r"
  by (simp_all add: resultInvariant_def split: option.splits)

lemma quote_nonempty [simp]: "quote \<noteq> []"
  by (simp add: quote_def)





















































subsection \<open>Joining with an empty part on POSIX\<close>


lemma splitOn_nonempty [simp]: "splitOn d s \<noteq> []"
  by (induction s) (auto split: list.splits)

lemma splitOn_Cons_delim [simp]: "splitOn d (d # s) = [] # splitOn d s"
  by simp

lemma splitOn_append: "splitOn d (a @ d # b) = splitOn d a @ splitOn d b"
proof (induction a)
  case Nil
  then show ?case by simp
next
  case (Cons c a)
  show ?case
  proof (cases "c = d")
    case True
    with Cons show ?thesis by simp
  next
    case False
    obtain seg segs where s: "splitOn d a = seg # segs"
      by (cases "splitOn d a") simp_all
    with False Cons show ?thesis by simp
  qed
qed

lemma splitOn_no_delim: "d \<notin> set s \<Longrightarrow> splitOn d s = [s]"
  by (induction s) auto

lemma splitOn_segments: "seg \<in> set (splitOn d s) \<Longrightarrow> d \<notin> set seg"
proof (induction s arbitrary: seg)
  case Nil
  then show ?case by simp
next
  case (Cons c s)
  show ?case
  proof (cases "c = d")
    case True
    with Cons show ?thesis by auto
  next
    case False
    obtain x xs where s: "splitOn d s = x # xs"
      by (cases "splitOn d s") simp_all
    with False Cons.prems have "seg = c # x \<or> seg \<in> set xs" by simp
    moreover have "d \<notin> set x" using Cons.IH [of x] s by simp
    moreover have "seg \<in> set xs \<Longrightarrow> d \<notin> set seg" using Cons.IH [of seg] s by simp
    ultimately show ?thesis using False by auto
  qed
qed

lemma splitOn_joinWith:
  "segs \<noteq> [] \<Longrightarrow> \<forall>s \<in> set segs. d \<notin> set s \<Longrightarrow> splitOn d (joinWith [d] segs) = segs"
proof (induction "[d]" segs rule: joinWith.induct)
  case 1
  then show ?case by simp
next
  case (2 x)
  then show ?case by (simp add: splitOn_no_delim)
next
  case (3 x y ys)
  then have "splitOn d (joinWith [d] (y # ys)) = y # ys" by simp
  moreover have "splitOn d x = [x]" using 3 by (simp add: splitOn_no_delim)
  ultimately show ?case using splitOn_append [of d x "joinWith [d] (y # ys)"] by simp
qed

lemma normalizeSegments_append:
  "normalizeSegments a kept (xs @ ys) = normalizeSegments a (normalizeSegments a kept xs) ys"
  by (induction a kept xs rule: normalizeSegments.induct) (auto split: list.splits)

lemma properSegments_simps [simp]:
  "properSegments []"
  "properSegments (k # kept) \<longleftrightarrow> k \<noteq> [] \<and> k \<noteq> ''.'' \<and> properSegments kept"
  by (auto simp: properSegments_def)

lemma properSegments_normalize:
  "properSegments kept \<Longrightarrow> properSegments (normalizeSegments a kept xs)"
proof (induction a kept xs rule: normalizeSegments.induct)
  case (1 a kept)
  then show ?case by simp
next
  case (2 a kept seg segs)
  then show ?case by (cases kept) auto
qed

lemma normalize_subset: "set (normalizeSegments a kept xs) \<subseteq> set kept \<union> set xs"
proof (induction a kept xs rule: normalizeSegments.induct)
  case (1 a kept)
  then show ?case by simp
next
  case (2 a kept seg segs)
  show ?case
  proof (cases "seg = [] \<or> seg = ''.''")
    case True
    with 2 show ?thesis by auto
  next
    case skip: False
    show ?thesis
    proof (cases "seg = ''..''")
      case False
      with skip 2 show ?thesis by auto
    next
      case parent: True
      show ?thesis
      proof (cases kept)
        case Nil
        with skip parent 2 show ?thesis by (cases a) auto
      next
        case (Cons k ks)
        with skip parent 2 show ?thesis by (cases "k = ''..''"; cases a) auto
      qed
    qed
  qed
qed

lemma no_parent_normalize:
  "''..'' \<notin> set kept \<Longrightarrow> ''..'' \<notin> set (normalizeSegments False kept xs)"
proof (induction "False" kept xs rule: normalizeSegments.induct)
  case (1 kept)
  then show ?case by simp
next
  case (2 kept seg segs)
  then show ?case by (cases kept) auto
qed

lemma normalize_step:
  "normalizeSegments a kept (seg # segs)
     = normalizeSegments a (normalizeSegments a kept [seg]) segs"
  using normalizeSegments_append [of a kept "[seg]" segs] by simp

lemma replay_Cons:
  "normalizeSegments False base (rev (k # kept))
     = normalizeSegments False (normalizeSegments False base (rev kept)) [k]"
  by (simp add: normalizeSegments_append)

lemma normalize_kept:
  "properSegments kept \<Longrightarrow> ''..'' \<notin> set kept \<Longrightarrow>
   normalizeSegments False base (rev kept) = kept @ base"
proof (induction kept)
  case Nil
  then show ?case by simp
next
  case (Cons k kept)
  then show ?case by (simp only: replay_Cons) auto
qed

lemma replay_one_step:
  assumes "properSegments kept"
  shows "normalizeSegments False base (rev (normalizeSegments True kept [seg]))
           = normalizeSegments False (normalizeSegments False base (rev kept)) [seg]"
proof (cases "seg = [] \<or> seg = ''.''")
  case True
  then show ?thesis by auto
next
  case skip: False
  show ?thesis
  proof (cases "seg = ''..''")
    case False
    with skip have "normalizeSegments True kept [seg] = seg # kept" by simp
    then show ?thesis by (simp only: replay_Cons)
  next
    case parent: True
    show ?thesis
    proof (cases kept)
      case Nil
      with parent show ?thesis by simp
    next
      case (Cons k ks)
      show ?thesis
      proof (cases "k = ''..''")
        case True
        with parent Cons have "normalizeSegments True kept [seg] = ''..'' # kept" by simp
        then show ?thesis using parent by (simp only: replay_Cons)
      next
        case False
        with Cons assms have k: "k \<noteq> []" "k \<noteq> ''.''" "k \<noteq> ''..''" by simp_all
        from parent Cons False have "normalizeSegments True kept [seg] = ks" by simp
        moreover have "normalizeSegments False
                         (normalizeSegments False base (rev (k # ks))) [''..'']
                       = normalizeSegments False base (rev ks)"
          using k by (simp only: replay_Cons) simp
        ultimately show ?thesis using parent Cons by simp
      qed
    qed
  qed
qed

lemma normalize_relative_then_resolve:
  "properSegments kept \<Longrightarrow>
   normalizeSegments False base (rev (normalizeSegments True kept xs))
     = normalizeSegments False (normalizeSegments False base (rev kept)) xs"
proof (induction xs arbitrary: kept)
  case Nil
  then show ?case by simp
next
  case (Cons seg segs)
  let ?kept' = "normalizeSegments True kept [seg]"
  have "properSegments ?kept'" using Cons.prems by (rule properSegments_normalize)
  then have "normalizeSegments False base (rev (normalizeSegments True ?kept' segs))
     = normalizeSegments False (normalizeSegments False base (rev ?kept')) segs"
    by (rule Cons.IH)
  also have "normalizeSegments False base (rev ?kept')
               = normalizeSegments False (normalizeSegments False base (rev kept)) [seg]"
    using Cons.prems by (rule replay_one_step)
  finally show ?case
    using normalize_step [of True kept seg segs]
      normalize_step [of False "normalizeSegments False base (rev kept)" seg segs]
    by simp
qed

lemma normalize_skip_empty [simp]: "normalizeSegments a kept ([] # xs) = normalizeSegments a kept xs"
  by simp

lemma normalize_skip_dot [simp]:
  "normalizeSegments a kept (''.'' # xs) = normalizeSegments a kept xs"
  by simp

lemma splitOn_trailing: "splitOn d (p @ [d]) = splitOn d p @ [[]]"
  using splitOn_append [of d p "[]"] by simp

lemma normalize_trailing:
  "normalizeSegments a kept (splitOn d (p @ [d])) = normalizeSegments a kept (splitOn d p)"
  by (simp add: splitOn_trailing normalizeSegments_append)

lemma posixResolve_stack:
  "posixResolve cwd p =
     ''/'' @ joinWith ''/''
       (rev (normalizeSegments False
               (if p \<noteq> [] \<and> hd p = CHR ''/'' then []
                else normalizeSegments False [] (splitOn CHR ''/'' cwd))
               (splitOn CHR ''/'' p)))"
proof (cases "p = []")
  case True
  have "normalizeSegments False [] (splitOn CHR ''/'' (cwd @ ''/''))
          = normalizeSegments False [] (splitOn CHR ''/'' cwd)"
    using normalize_trailing [of False "[]" "CHR ''/''" cwd] by simp
  with True show ?thesis by (simp add: posixResolve_def normalizeString_def)
next
  case nonempty: False
  show ?thesis
  proof (cases "hd p = CHR ''/''")
    case True
    have "normalizeSegments False [] (splitOn CHR ''/'' (p @ ''/''))
          = normalizeSegments False [] (splitOn CHR ''/'' p)"
      using normalize_trailing [of False "[]" "CHR ''/''" p] by simp
    with True nonempty show ?thesis by (simp add: posixResolve_def normalizeString_def)
  next
    case False
    have "splitOn CHR ''/'' (cwd @ ''/'' @ p @ ''/'')
            = splitOn CHR ''/'' cwd @ splitOn CHR ''/'' (p @ ''/'')"
      using splitOn_append [of "CHR ''/''" cwd "p @ ''/''"] by simp
    then have "normalizeSegments False [] (splitOn CHR ''/'' (cwd @ ''/'' @ p @ ''/''))
          = normalizeSegments False (normalizeSegments False [] (splitOn CHR ''/'' cwd))
              (splitOn CHR ''/'' p)"
      using normalize_trailing [of False _ "CHR ''/''" p]
      by (simp add: normalizeSegments_append)
    with False nonempty show ?thesis by (simp add: posixResolve_def normalizeString_def)
  qed
qed

lemma joinWith_nonempty:
  "segs \<noteq> [] \<Longrightarrow> hd segs \<noteq> [] \<Longrightarrow>
   joinWith sep segs \<noteq> [] \<and> hd (joinWith sep segs) = hd (hd segs)"
  by (induction sep segs rule: joinWith.induct) auto

lemma normalized_segments_slash_free:
  "\<forall>k \<in> set (normalizeSegments a [] (splitOn CHR ''/'' p)). CHR ''/'' \<notin> set k"
  using normalize_subset [of a "[]" "splitOn CHR ''/'' p"] splitOn_segments [of _ "CHR ''/''" p]
  by auto

lemma normalized_segments_proper:
  "properSegments (normalizeSegments a [] (splitOn CHR ''/'' p))"
  by (rule properSegments_normalize) simp

lemma joinWith_rev_empty:
  assumes "properSegments kept"
  shows "joinWith sep (rev kept) = [] \<longleftrightarrow> kept = []"
proof (cases "rev kept")
  case Nil
  then show ?thesis by simp
next
  case (Cons x xs)
  then have "x \<in> set kept" by (metis list.set_intros(1) set_rev)
  with assms have "x \<noteq> []" by (simp add: properSegments_def)
  with Cons have "joinWith sep (rev kept) \<noteq> []"
    using joinWith_nonempty [of "rev kept" sep] by simp
  moreover from Cons have "kept \<noteq> []" by auto
  ultimately show ?thesis by simp
qed

lemma splitOn_joined_stack:
  assumes "kept = normalizeSegments a [] (splitOn CHR ''/'' p)" "kept \<noteq> []"
  shows "splitOn CHR ''/'' (joinWith ''/'' (rev kept)) = rev kept"
proof -
  have "\<forall>s \<in> set (rev kept). CHR ''/'' \<notin> set s"
    using assms(1) normalized_segments_slash_free [of a p] by simp
  moreover have "rev kept \<noteq> []" using assms(2) by simp
  ultimately show ?thesis
    using splitOn_joinWith [of "rev kept" "CHR ''/''"] by simp
qed

lemma normalize_absolute_stack:
  assumes "b \<noteq> []" "hd b = CHR ''/''"
  shows "posixNormalize b \<noteq> []" "hd (posixNormalize b) = CHR ''/''"
    "normalizeSegments False [] (splitOn CHR ''/'' (posixNormalize b))
       = normalizeSegments False [] (splitOn CHR ''/'' b)"
proof -
  define kept where "kept = normalizeSegments False [] (splitOn CHR ''/'' b)"
  have proper: "properSegments kept"
    unfolding kept_def by (rule normalized_segments_proper)
  have noparent: "''..'' \<notin> set kept"
    unfolding kept_def by (rule no_parent_normalize) simp
  have replay: "normalizeSegments False [] (rev kept) = kept"
    using normalize_kept [OF proper noparent, of "[]"] by simp
  show "posixNormalize b \<noteq> []" "hd (posixNormalize b) = CHR ''/''"
    using assms by (simp_all add: posixNormalize_def Let_def)
  show "normalizeSegments False [] (splitOn CHR ''/'' (posixNormalize b))
       = normalizeSegments False [] (splitOn CHR ''/'' b)"
  proof (cases "kept = []")
    case True
    then have "normalizeString b False = []"
      by (simp add: normalizeString_def kept_def)
    with assms have "posixNormalize b = ''/''"
      by (simp add: posixNormalize_def Let_def)
    with True show ?thesis by (simp add: kept_def)
  next
    case False
    let ?j = "joinWith ''/'' (rev kept)"
    have j: "normalizeString b False = ?j" by (simp add: normalizeString_def kept_def)
    have "?j \<noteq> []" using joinWith_rev_empty [OF proper] False by simp
    with assms j have q: "posixNormalize b = ''/'' @ ?j @ (if last b = CHR ''/'' then ''/'' else [])"
      by (simp add: posixNormalize_def Let_def)
    have sj: "splitOn CHR ''/'' ?j = rev kept"
      using splitOn_joined_stack [of kept False b] False by (simp add: kept_def)
    have "normalizeSegments False [] (splitOn CHR ''/'' (posixNormalize b))
            = normalizeSegments False [] (rev kept)"
    proof (cases "last b = CHR ''/''")
      case True
      with q have "posixNormalize b = CHR ''/'' # (?j @ [CHR ''/''])" by simp
      then show ?thesis
        using normalize_trailing [of False "[]" "CHR ''/''" ?j] sj by simp
    next
      case False
      with q have "posixNormalize b = CHR ''/'' # ?j" by simp
      then show ?thesis using sj by simp
    qed
    with replay show ?thesis by (simp add: kept_def)
  qed
qed

lemma normalize_relative_stack:
  assumes "b \<noteq> []" "hd b \<noteq> CHR ''/''"
  shows "posixNormalize b \<noteq> []" "hd (posixNormalize b) \<noteq> CHR ''/''"
    "normalizeSegments False base (splitOn CHR ''/'' (posixNormalize b))
       = normalizeSegments False base (splitOn CHR ''/'' b)"
proof -
  define kept where "kept = normalizeSegments True [] (splitOn CHR ''/'' b)"
  have proper: "properSegments kept"
    unfolding kept_def by (rule normalized_segments_proper)
  have replay: "normalizeSegments False base (rev kept)
                  = normalizeSegments False base (splitOn CHR ''/'' b)"
    using normalize_relative_then_resolve [of "[]" base "splitOn CHR ''/'' b"]
    by (simp add: kept_def)
  have j: "normalizeString b True = joinWith ''/'' (rev kept)"
    by (simp add: normalizeString_def kept_def)
  show "posixNormalize b \<noteq> []"
    using assms by (simp add: posixNormalize_def Let_def)
  show "hd (posixNormalize b) \<noteq> CHR ''/''"
  proof (cases "kept = []")
    case True
    with j assms show ?thesis by (simp add: posixNormalize_def Let_def)
  next
    case False
    let ?j = "joinWith ''/'' (rev kept)"
    from False have r: "rev kept \<noteq> []" by simp
    then have "hd (rev kept) \<in> set kept" by (metis hd_in_set set_rev)
    then have h: "hd (rev kept) \<noteq> []" "CHR ''/'' \<notin> set (hd (rev kept))"
      using proper normalized_segments_slash_free [of True b]
      by (simp_all add: properSegments_def kept_def)
    then have "?j \<noteq> []" "hd ?j = hd (hd (rev kept))"
      using joinWith_nonempty [OF r, of "''/''"] by simp_all
    moreover from h have "hd (hd (rev kept)) \<noteq> CHR ''/''"
      by (cases "hd (rev kept)") auto
    ultimately show ?thesis
      using assms j by (simp add: posixNormalize_def Let_def)
  qed
  show "normalizeSegments False base (splitOn CHR ''/'' (posixNormalize b))
       = normalizeSegments False base (splitOn CHR ''/'' b)"
  proof (cases "kept = []")
    case True
    with j have "normalizeString b True = []" by simp
    with assms have "posixNormalize b = ''./'' \<or> posixNormalize b = ''.''"
      by (simp add: posixNormalize_def Let_def)
    then have "normalizeSegments False base (splitOn CHR ''/'' (posixNormalize b)) = base"
      by auto
    with replay True show ?thesis by simp
  next
    case False
    let ?j = "joinWith ''/'' (rev kept)"
    have "?j \<noteq> []" using joinWith_rev_empty [OF proper] False by simp
    with assms j have q: "posixNormalize b = ?j @ (if last b = CHR ''/'' then ''/'' else [])"
      by (simp add: posixNormalize_def Let_def)
    have sj: "splitOn CHR ''/'' ?j = rev kept"
      using splitOn_joined_stack [of kept True b] False by (simp add: kept_def)
    have "normalizeSegments False base (splitOn CHR ''/'' (posixNormalize b))
            = normalizeSegments False base (rev kept)"
    proof (cases "last b = CHR ''/''")
      case True
      with q have "posixNormalize b = ?j @ [CHR ''/'']" by simp
      then show ?thesis
        using normalize_trailing [of False base "CHR ''/''" ?j] sj by simp
    next
      case False
      with q show ?thesis using sj by simp
    qed
    with replay show ?thesis by simp
  qed
qed

lemma posixJoin_empty_part:
  "posixJoin [b, []] = (if b = [] then ''.'' else posixNormalize b)"
  by (simp add: posixJoin_def Let_def)

lemma posixResolve_join_empty: "posixResolve cwd (posixJoin [b, []]) = posixResolve cwd b"
proof (cases "b = []")
  case True
  then show ?thesis by (simp add: posixJoin_empty_part posixResolve_stack)
next
  case nonempty: False
  show ?thesis
  proof (cases "hd b = CHR ''/''")
    case True
    with nonempty show ?thesis
      using normalize_absolute_stack [of b]
      by (simp add: posixJoin_empty_part posixResolve_stack)
  next
    case False
    with nonempty show ?thesis
      using normalize_relative_stack [of b]
      by (simp add: posixJoin_empty_part posixResolve_stack)
  qed
qed

lemma empty_filename_valid: "valid (validateSafeFilename (Str []))"
  by code_simp

lemma safePathJoin_empty_general:
  assumes "pathResolve P (pathJoin P [baseDir, []]) = pathResolve P baseDir"
  shows "safePathJoin P baseDir [[]] = passed\<lparr>path := Some (pathJoin P [baseDir, []])\<rparr>"
  using assms empty_filename_valid
  by (simp add: safePathJoin_def Let_def)

text \<open>
  Claim C10. \<open>validateSafeFilename\<close> accepts the empty string, and
  \<open>safePathJoin(baseDir, '')\<close> succeeds with the base directory as its path: for any
  \<^verbatim>\<open>path\<close> module in which joining the base with the empty part resolves like the
  base, and so on POSIX for every base directory and every working directory, where
  the returned path is the normalised base and resolves to the same absolute path as the
  base; for \<^verbatim>\<open>/base\<close> the returned path is \<^verbatim>\<open>/base\<close> itself.
\<close>

theorem safePathJoin_accepts_empty_part:
  "valid (validateSafeFilename (Str [])) \<and>
   (\<forall>P baseDir.
      pathResolve P (pathJoin P [baseDir, []]) = pathResolve P baseDir \<longrightarrow>
      safePathJoin P baseDir [[]] = passed\<lparr>path := Some (pathJoin P [baseDir, []])\<rparr>) \<and>
   (\<forall>cwd baseDir.
      safePathJoin (posixPath cwd) baseDir [[]]
        = passed\<lparr>path := Some (posixJoin [baseDir, []])\<rparr> \<and>
      posixResolve cwd (posixJoin [baseDir, []]) = posixResolve cwd baseDir) \<and>
   (\<forall>cwd. safePathJoin (posixPath cwd) ''/base'' [[]] = passed\<lparr>path := Some ''/base''\<rparr>)"
proof (intro conjI allI impI)
  show "valid (validateSafeFilename (Str []))" by (rule empty_filename_valid)
next
  fix P :: pathModule and baseDir
  assume "pathResolve P (pathJoin P [baseDir, []]) = pathResolve P baseDir"
  then show "safePathJoin P baseDir [[]] = passed\<lparr>path := Some (pathJoin P [baseDir, []])\<rparr>"
    by (rule safePathJoin_empty_general)
next
  fix cwd baseDir
  show "safePathJoin (posixPath cwd) baseDir [[]]
        = passed\<lparr>path := Some (posixJoin [baseDir, []])\<rparr>"
    using safePathJoin_empty_general [of "posixPath cwd" baseDir]
    by (simp add: posixPath_def posixResolve_join_empty)
next
  fix cwd baseDir
  show "posixResolve cwd (posixJoin [baseDir, []]) = posixResolve cwd baseDir"
    by (rule posixResolve_join_empty)
next
  fix cwd
  have "posixJoin [''/base'', []] = ''/base''" by code_simp
  then show "safePathJoin (posixPath cwd) ''/base'' [[]] = passed\<lparr>path := Some ''/base''\<rparr>"
    using safePathJoin_empty_general [of "posixPath cwd" "''/base''"]
    by (simp add: posixPath_def posixResolve_join_empty)
qed

theorem safePathJoin_accepts_empty_part_witness:
  "pathResolve (posixPath ''/home'') (pathJoin (posixPath ''/home'') [''/base'', []])
     = pathResolve (posixPath ''/home'') ''/base'' \<and>
   safePathJoin (posixPath ''/home'') ''/base'' [[]]
     = passed\<lparr>path := Some (pathJoin (posixPath ''/home'') [''/base'', []])\<rparr> \<and>
   pathJoin (posixPath ''/home'') [''/base'', []] = ''/base''"
proof -
  have a: "pathResolve (posixPath ''/home'') (pathJoin (posixPath ''/home'') [''/base'', []])
     = pathResolve (posixPath ''/home'') ''/base''"
    by code_simp
  have b: "pathJoin (posixPath ''/home'') [''/base'', []] = ''/base''"
    by code_simp
  from safePathJoin_accepts_empty_part a
  have "safePathJoin (posixPath ''/home'') ''/base'' [[]]
     = passed\<lparr>path := Some (pathJoin (posixPath ''/home'') [''/base'', []])\<rparr>"
    by blast
  with a b show ?thesis by simp
qed

end
